theory Spec2Isabelle
  imports Complex_Main "HOL-Library.Multiset"
begin

section \<open>DetectLight: per-frame percentile pixel values of video files\<close>

text \<open>
  A shallow embedding of \<^verbatim>\<open>src/detectlight.py\<close>. The three functions of the script
  are \<^verbatim>\<open>identify_files\<close>, \<^verbatim>\<open>get_frame_values\<close> and \<^verbatim>\<open>plot_frame_values\<close>. Everything they
  touch outside the script is made explicit: the directory tree and the video files are a
  value of type \<open>filesystem\<close>, what \<^verbatim>\<open>pathlib\<close> does on the platform is a value of type
  \<open>platform\<close>, the exceptions of Python are values of type \<open>error\<close>, the files that the
  decoder has opened are a trace, and the files written are a value of type \<open>outputs\<close>.
  Numbers are exact rationals: the rounding of 64-bit floats is not modelled.
\<close>

subsection \<open>Data\<close>

text \<open>A path is the text of a \<^verbatim>\<open>pathlib.Path\<close> (what \<^verbatim>\<open>str\<close> gives), POSIX flavour.\<close>

type_synonym path = string

text \<open>
  A frame is the pixel buffer that \<^verbatim>\<open>np.percentile\<close> sees: with \<^verbatim>\<open>axis=None\<close> the array is
  flattened, so the frame is the list of its samples.
\<close>

type_synonym frame = "rat list"

text \<open>
  The exceptions that can leave the functions of the script: the \<^verbatim>\<open>assert\<close> of
  \<^verbatim>\<open>get_frame_values\<close>, the two exceptions of \<^verbatim>\<open>np.percentile\<close> (a percentile outside
  \<open>[0, 100]\<close>, an empty array), what the decoder raises when a file cannot be opened
  or breaks while it is read, and the \<^verbatim>\<open>OSError\<close> (with its subclasses \<^verbatim>\<open>PermissionError\<close>,
  \<^verbatim>\<open>FileNotFoundError\<close>, \<^verbatim>\<open>IsADirectoryError\<close>) of a path that cannot be examined or of a
  file that cannot be created. \<open>PathError\<close> and \<open>EmptyFrameError\<close> are the two further
  kinds that the specification names; no statement of the script raises them.
\<close>

datatype error =
    AssertionError
  | ValueError
  | IndexError
  | DecodeOpenError
  | DecodeFrameError
  | OSError
  | PathError
  | EmptyFrameError

text \<open>
  What \<^verbatim>\<open>vid.iter_data()\<close> yields: frames one after the other, until the video ends or the
  decoder raises.
\<close>

datatype frames = End | Frame frame frames | Broken

text \<open>
  A node of the file system, as \<^verbatim>\<open>stat\<close> and the decoder see it:
  \<^item> a directory, with whether files can be created in it, and the names of its entries in
    the order in which the operating system enumerates them (a directory that may not be
    read enumerates nothing: \<^verbatim>\<open>pathlib\<close> swallows the \<^verbatim>\<open>PermissionError\<close> of \<^verbatim>\<open>scandir\<close>);
  \<^item> a file, which the decoder either can open (\<open>Some\<close> of its frames) or cannot
    (\<open>None\<close>);
  \<^item> a path at which \<^verbatim>\<open>stat\<close> fails with an error that \<^verbatim>\<open>pathlib\<close> does not take for
    "nothing there": a name that is too long, a parent directory that may not be searched.
  No node at a path means that \<^verbatim>\<open>stat\<close> reports that nothing is there (\<^verbatim>\<open>ENOENT\<close>,
  \<^verbatim>\<open>ENOTDIR\<close>).
\<close>

datatype node = Dir bool "string list" | File "frames option" | StatFails

type_synonym filesystem = "path \<rightharpoonup> node"

text \<open>The dictionary that \<^verbatim>\<open>get_frame_values\<close> builds for one video file.\<close>

record value_dict =
  fname :: path
  frame_values :: "rat list"
  percentile :: int

text \<open>
  The argument \<^verbatim>\<open>video_files\<close> is any Python iterable; the script looks at its type. The
  model keeps the type and the elements that iterating over it would give.
\<close>

datatype py_type = PyList | PyTuple | PyGenerator | PyListSubclass

type_synonym video_files = "py_type \<times> path list"

subsection \<open>The platform\<close>

text \<open>
  What \<^verbatim>\<open>pathlib\<close> and the operating system do with the text of a path differs between
  platforms, so the functions of the script take it as a parameter:
  \<^item> \<open>matches_mp4\<close>: whether the name of a directory entry matches the pattern
    \<^verbatim>\<open>'*.mp4'\<close> (the \<^verbatim>\<open>compile_pattern\<close> of the flavour);
  \<^item> \<open>joinpath\<close>: the text of \<^verbatim>\<open>path / s\<close>;
  \<^item> \<open>dirname\<close>: the directory in which the file named by a path is created.
\<close>

record platform =
  matches_mp4 :: "string \<Rightarrow> bool"
  joinpath :: "path \<Rightarrow> string \<Rightarrow> path"
  dirname :: "path \<Rightarrow> path"

text \<open>
  POSIX. The match is case-sensitive: the name ends with \<^verbatim>\<open>.mp4\<close> (in \<^verbatim>\<open>pathlib\<close> the star
  also matches a leading dot). An absolute right operand of \<^verbatim>\<open>/\<close> replaces the left one;
  a relative one is appended after a slash, and the path \<^verbatim>\<open>.\<close> disappears. The directory of
  a path is what precedes its last slash: the current directory \<^verbatim>\<open>.\<close> when there is no
  slash, the root when the only slash is the first character.
\<close>

definition posix_matches_mp4 :: "string \<Rightarrow> bool" where
  "posix_matches_mp4 name \<longleftrightarrow>
     4 \<le> length name \<and> drop (length name - 4) name = ''.mp4''"

definition posix_joinpath :: "path \<Rightarrow> string \<Rightarrow> path" where
  "posix_joinpath p s =
     (if s = [] then p
      else if hd s = CHR ''/'' then s
      else if p = ''.'' then s
      else if p \<noteq> [] \<and> last p = CHR ''/'' then p @ s
      else p @ ''/'' @ s)"

definition posix_dirname :: "path \<Rightarrow> path" where
  "posix_dirname p =
     (let r = dropWhile (\<lambda>c. c \<noteq> CHR ''/'') (rev p)
      in if r = [] then ''.'' else if tl r = [] then ''/'' else rev (tl r))"

definition posix :: platform where
  "posix = \<lparr>matches_mp4 = posix_matches_mp4, joinpath = posix_joinpath,
             dirname = posix_dirname\<rparr>"

text \<open>
  On Windows the flavour compiles the pattern with \<^verbatim>\<open>re.IGNORECASE\<close>: the last four
  characters are \<^verbatim>\<open>.mp4\<close> in any mix of upper and lower case.
\<close>

definition windows_matches_mp4 :: "string \<Rightarrow> bool" where
  "windows_matches_mp4 name \<longleftrightarrow>
     4 \<le> length name \<and>
     drop (length name - 4) name \<in> set [''.mp4'', ''.mP4'', ''.Mp4'', ''.MP4'']"

subsection \<open>\<^verbatim>\<open>identify_files\<close>\<close>

text \<open>
  \<^verbatim>\<open>path.glob('*.mp4')\<close>, a pattern of one component. The selector of \<^verbatim>\<open>pathlib\<close> first
  asks \<^verbatim>\<open>is_dir\<close> of the path: when \<^verbatim>\<open>stat\<close> fails with an error other than "nothing
  there", that \<^verbatim>\<open>OSError\<close> leaves \<^verbatim>\<open>glob\<close>; when the path is not a directory (also when
  nothing exists there), the selector yields nothing; otherwise it yields the matching
  entries, joined to the path, in enumeration order.
\<close>

definition glob :: "platform \<Rightarrow> filesystem \<Rightarrow> path \<Rightarrow> error + path list" where
  "glob pf fs p =
     (case fs p of
        Some StatFails \<Rightarrow> Inl OSError
      | Some (Dir writable entries) \<Rightarrow>
          Inr (map (joinpath pf p) (filter (matches_mp4 pf) entries))
      | Some (File content) \<Rightarrow> Inr []
      | None \<Rightarrow> Inr [])"

text \<open>
  \<^verbatim>\<open>identify_files\<close>, lines 42 to 44: the list of the matches and its length. The script
  checks nothing itself; an exception of \<^verbatim>\<open>glob\<close> leaves the function.
\<close>

definition identify_files ::
  "platform \<Rightarrow> filesystem \<Rightarrow> path \<Rightarrow> error + path list \<times> nat" where
  "identify_files pf fs p =
     (case glob pf fs p of
        Inl e \<Rightarrow> Inl e
      | Inr video_files \<Rightarrow>
          (let no_files = length video_files in Inr (video_files, no_files)))"

subsection \<open>\<^verbatim>\<open>np.percentile\<close>\<close>

text \<open>
  \<^verbatim>\<open>np.percentile(frame, q)\<close> with the default method \<^verbatim>\<open>linear\<close>, as numpy computes it:
  the percentile is checked first (\<^verbatim>\<open>ValueError\<close> outside \<open>[0, 100]\<close>); an empty array
  then fails with \<^verbatim>\<open>IndexError\<close> when the sorted array is indexed; otherwise, with \<open>n\<close>
  samples sorted as \<open>arr\<close>, the virtual index is \<open>(n - 1) * q / 100\<close>, the two
  neighbours are its floor and the floor plus one (both the last index when the virtual
  index reaches it), and the result is \<open>arr[prev] + (arr[next] - arr[prev]) * gamma\<close>
  where \<open>gamma\<close> is the fractional part of the virtual index.
\<close>

definition lerp :: "rat \<Rightarrow> rat \<Rightarrow> rat \<Rightarrow> rat" where
  "lerp a b t = a + (b - a) * t"

definition virtual_index :: "nat \<Rightarrow> int \<Rightarrow> rat" where
  "virtual_index n q = of_nat (n - 1) * (of_int q / 100)"

definition np_percentile :: "frame \<Rightarrow> int \<Rightarrow> error + rat" where
  "np_percentile a q =
     (if q < 0 \<or> 100 < q then Inl ValueError
      else if a = [] then Inl IndexError
      else
        let arr = sort a;
            n = length arr;
            h = virtual_index n q;
            above = (of_nat (n - 1) \<le> h);
            previous_index = (if above then n - 1 else nat \<lfloor>h\<rfloor>);
            next_index = (if above then n - 1 else nat \<lfloor>h\<rfloor> + 1);
            gamma = h - of_int \<lfloor>h\<rfloor>
        in Inr (lerp (arr ! previous_index) (arr ! next_index) gamma))"

subsection \<open>\<^verbatim>\<open>get_frame_values\<close>\<close>

text \<open>\<^verbatim>\<open>imageio.get_reader(fname, 'ffmpeg')\<close>: the frames of a file that can be opened.\<close>

definition get_reader :: "filesystem \<Rightarrow> path \<Rightarrow> error + frames" where
  "get_reader fs p =
     (case fs p of
        Some (File (Some vid)) \<Rightarrow> Inr vid
      | _ \<Rightarrow> Inl DecodeOpenError)"

text \<open>
  The inner loop, lines 75 to 77: one percentile per frame, appended to
  \<^verbatim>\<open>temp_video_data\<close>. An exception of the decoder or of \<^verbatim>\<open>np.percentile\<close> leaves the loop.
\<close>

fun frame_loop :: "frames \<Rightarrow> int \<Rightarrow> rat list \<Rightarrow> error + rat list" where
  "frame_loop End q temp_video_data = Inr temp_video_data"
| "frame_loop Broken q temp_video_data = Inl DecodeFrameError"
| "frame_loop (Frame fr rest) q temp_video_data =
     (case np_percentile fr q of
        Inl e \<Rightarrow> Inl e
      | Inr v \<Rightarrow> frame_loop rest q (temp_video_data @ [v]))"

text \<open>The body of the outer loop, lines 72 to 83: the dictionary of one file.\<close>

definition file_body :: "filesystem \<Rightarrow> int \<Rightarrow> path \<Rightarrow> error + value_dict" where
  "file_body fs q fn =
     (case get_reader fs fn of
        Inl e \<Rightarrow> Inl e
      | Inr vid \<Rightarrow>
          (case frame_loop vid q [] of
             Inl e \<Rightarrow> Inl e
           | Inr temp_video_data \<Rightarrow>
               Inr \<lparr>fname = fn, frame_values = temp_video_data, percentile = q\<rparr>))"

text \<open>
  The outer loop, lines 71 to 85. There is no \<^verbatim>\<open>try\<close> in the script: an exception in the
  body ends the loop and the function. The second component is the trace of the files
  that were handed to the decoder, in order.
\<close>

fun file_loop ::
  "filesystem \<Rightarrow> int \<Rightarrow> path list \<Rightarrow> value_dict list \<Rightarrow> path list
     \<Rightarrow> (error + value_dict list) \<times> path list" where
  "file_loop fs q [] video_data opened = (Inr video_data, opened)"
| "file_loop fs q (fn # rest) video_data opened =
     (case file_body fs q fn of
        Inl e \<Rightarrow> (Inl e, opened @ [fn])
      | Inr value_dict \<Rightarrow> file_loop fs q rest (video_data @ [value_dict]) (opened @ [fn]))"

text \<open>
  \<^verbatim>\<open>get_frame_values\<close>, with assertions enabled (the default of the interpreter): the
  argument must be of type \<^verbatim>\<open>list\<close> exactly.
\<close>

definition get_frame_values ::
  "filesystem \<Rightarrow> video_files \<Rightarrow> int \<Rightarrow> (error + value_dict list) \<times> path list" where
  "get_frame_values fs video_files percentile_value =
     (if fst video_files \<noteq> PyList then (Inl AssertionError, [])
      else file_loop fs percentile_value (snd video_files) [] [])"

subsection \<open>\<^verbatim>\<open>plot_frame_values\<close>: the CSV files\<close>

text \<open>\<^verbatim>\<open>str\<close> of a Python integer: decimal digits, with a minus sign when negative.\<close>

fun str_nat :: "nat \<Rightarrow> string" where
  "str_nat n =
     (if n < 10 then [''0123456789'' ! n]
      else str_nat (n div 10) @ [''0123456789'' ! (n mod 10)])"

declare str_nat.simps [simp del]

definition str_int :: "int \<Rightarrow> string" where
  "str_int i = (if i < 0 then ''-'' @ str_nat (nat (- i)) else str_nat (nat i))"

text \<open>
  The name of the CSV file, line 129:
  \<^verbatim>\<open>f'{video_dict["fname"]}_{video_dict["percentile"]}.csv'\<close>.
\<close>

definition csv_name :: "value_dict \<Rightarrow> string" where
  "csv_name video_dict = fname video_dict @ ''_'' @ str_int (percentile video_dict) @ ''.csv''"

text \<open>
  Reading a decimal numeral back, as \<^verbatim>\<open>int\<close> of Python does: the value of a digit is its
  place among the ten digits.
\<close>

definition digit_value :: "char \<Rightarrow> nat" where
  "digit_value c = length (takeWhile (\<lambda>d. d \<noteq> c) ''0123456789'')"

definition nat_of_str :: "string \<Rightarrow> nat" where
  "nat_of_str s = foldl (\<lambda>n c. 10 * n + digit_value c) 0 s"

definition int_of_str :: "string \<Rightarrow> int" where
  "int_of_str s =
     (case s of
        [] \<Rightarrow> 0
      | c # r \<Rightarrow> if c = CHR ''-'' then - int (nat_of_str r) else int (nat_of_str s))"

text \<open>
  A CSV file is the list of its rows, a row the list of its fields: the byte format is
  the business of Python's \<^verbatim>\<open>csv\<close> module. The store maps the name of each file written
  to its rows.
\<close>

type_synonym csv_file = "string list list"

type_synonym csv_store = "string \<rightharpoonup> csv_file"

text \<open>
  The loop of lines 132 and 133: \<^verbatim>\<open>writer.writerow([value])\<close> appends one row with one
  field, the text of the value. How Python prints a float is a parameter, \<open>str_float\<close>.
\<close>

fun write_rows :: "(rat \<Rightarrow> string) \<Rightarrow> rat list \<Rightarrow> csv_file \<Rightarrow> csv_file" where
  "write_rows str_float [] csvfile = csvfile"
| "write_rows str_float (v # vs) csvfile = write_rows str_float vs (csvfile @ [[str_float v]])"

text \<open>
  The path of the figure, line 126:
  \<^verbatim>\<open>path / f'{video_dict["fname"]}_{video_dict["percentile"]}.png'\<close>. The file name already
  carries the folder of the video, and the folder is joined in front of it once more.
\<close>

definition png_path :: "platform \<Rightarrow> path \<Rightarrow> value_dict \<Rightarrow> path" where
  "png_path pf p video_dict =
     joinpath pf p (fname video_dict @ ''_'' @ str_int (percentile video_dict) @ ''.png'')"

text \<open>
  Whether a file can be created or replaced at a path, by \<^verbatim>\<open>savefig\<close> or by
  \<^verbatim>\<open>open(..., 'w')\<close>: its directory must exist and allow it, and the path itself must not
  be a directory or beyond examination. Otherwise Python raises an \<^verbatim>\<open>OSError\<close>.
\<close>

definition can_create :: "platform \<Rightarrow> filesystem \<Rightarrow> path \<Rightarrow> bool" where
  "can_create pf fs target \<longleftrightarrow>
     (case fs (dirname pf target) of
        Some (Dir writable entries) \<Rightarrow>
          writable \<and>
          (case fs target of
             None \<Rightarrow> True
           | Some (File content) \<Rightarrow> True
           | Some (Dir w es) \<Rightarrow> False
           | Some StatFails \<Rightarrow> False)
      | Some (File content) \<Rightarrow> False
      | Some StatFails \<Rightarrow> False
      | None \<Rightarrow> False)"

text \<open>
  What \<^verbatim>\<open>plot_frame_values\<close> leaves behind: the paths of the figures saved, in order, and
  the CSV files. The two kinds of file have different extensions and are kept apart.
\<close>

record outputs =
  figures :: "path list"
  tables :: csv_store

text \<open>
  \<^verbatim>\<open>plot_frame_values\<close>, lines 112 to 133. For each dictionary the figure is saved first;
  when that raises, the function ends before the CSV file of the dictionary is opened.
  Then the CSV file is opened with mode \<^verbatim>\<open>'w'\<close>, which replaces a file of the same name,
  and the rows are written; when the file cannot be opened, the function ends. There is
  no \<^verbatim>\<open>try\<close>. Drawing the figure and writing a row of one float do not raise.
\<close>

fun plot_frame_values ::
  "platform \<Rightarrow> filesystem \<Rightarrow> (rat \<Rightarrow> string) \<Rightarrow> path \<Rightarrow> value_dict list \<Rightarrow> outputs
     \<Rightarrow> error option \<times> outputs" where
  "plot_frame_values pf fs str_float p [] out = (None, out)"
| "plot_frame_values pf fs str_float p (video_dict # rest) out =
     (if \<not> can_create pf fs (png_path pf p video_dict) then (Some OSError, out)
      else
        let saved = out\<lparr>figures := figures out @ [png_path pf p video_dict]\<rparr>
        in if \<not> can_create pf fs (csv_name video_dict) then (Some OSError, saved)
           else
             plot_frame_values pf fs str_float p rest
               (saved\<lparr>tables := (tables saved)
                  (csv_name video_dict \<mapsto>
                     write_rows str_float (frame_values video_dict) [])\<rparr>))"

text \<open>
  Reading a CSV file of one-field rows back: the fields in order, \<open>None\<close> when a row has
  not exactly one field.
\<close>

fun read_csv :: "csv_file \<Rightarrow> string list option" where
  "read_csv [] = Some []"
| "read_csv ([s] # rows) = map_option ((#) s) (read_csv rows)"
| "read_csv (_ # rows) = None"

text \<open>Reading back the CSV file of a given name: \<open>None\<close> when there is no such file.\<close>

definition read_back :: "outputs \<Rightarrow> string \<Rightarrow> string list option" where
  "read_back out name = Option.bind (tables out name) read_csv"

text \<open>
  For a float with a whole value (below \<open>10\<^sup>1\<^sup>6\<close>) Python prints the integer followed by
  \<^verbatim>\<open>.0\<close>, and \<^verbatim>\<open>float\<close> reads that text back. These two serve as the texts of the values
  in concrete runs.
\<close>

definition str_whole :: "rat \<Rightarrow> string" where
  "str_whole v = str_int \<lfloor>v\<rfloor> @ ''.0''"

definition float_whole :: "string \<Rightarrow> rat" where
  "float_whole s = of_int (int_of_str (takeWhile (\<lambda>c. c \<noteq> CHR ''.'') s))"

subsection \<open>Percentile by linear interpolation, as the specification words it\<close>

text \<open>
  The value below which \<open>q\<close> percent of the samples fall: with the samples in ascending
  order and ranks counted from 0, the requested rank is \<open>q / 100 * (n - 1)\<close>; the result
  is the linear interpolation between the samples at the two nearest ranks, the one below
  and the one above.
\<close>

definition interpolated_order_statistic :: "rat list \<Rightarrow> int \<Rightarrow> rat" where
  "interpolated_order_statistic samples q =
     (let xs = sort samples;
          r = of_int q / 100 * (of_nat (length xs) - 1);
          lo = nat \<lfloor>r\<rfloor>;
          hi = nat \<lceil>r\<rceil>
      in xs ! lo + (r - of_nat lo) * (xs ! hi - xs ! lo))"

text \<open>The frames that a video yields before it ends or breaks.\<close>

fun decoded :: "frames \<Rightarrow> frame list" where
  "decoded End = []"
| "decoded Broken = []"
| "decoded (Frame fr rest) = fr # decoded rest"

section \<open>Properties\<close>

subsection \<open>The two loops of \<^verbatim>\<open>get_frame_values\<close>\<close>

text \<open>
  What the loops return, by computation induction; the accumulators are generalised.
\<close>

lemma frame_loop_Inr:
  "frame_loop vid q acc = Inr vals \<Longrightarrow>
   \<exists>vs. vals = acc @ vs \<and> map Inr vs = map (\<lambda>fr. np_percentile fr q) (decoded vid)"
proof (induction vid q acc rule: frame_loop.induct)
  case (1 q acc)
  then show ?case by simp
next
  case (2 q acc)
  then show ?case by simp
next
  case (3 fr rest q acc)
  from "3.prems" obtain v where v: "np_percentile fr q = Inr v"
    and rest: "frame_loop rest q (acc @ [v]) = Inr vals"
    by (auto split: sum.splits)
  from "3.IH"[OF v rest] obtain vs where "vals = (acc @ [v]) @ vs"
    and "map Inr vs = map (\<lambda>fr. np_percentile fr q) (decoded rest)" by blast
  then have "vals = acc @ (v # vs) \<and>
    map Inr (v # vs) = map (\<lambda>fr. np_percentile fr q) (decoded (Frame fr rest))"
    using v by simp
  then show ?case by blast
qed

lemma file_body_Inr:
  "file_body fs q fn = Inr d \<Longrightarrow>
   fname d = fn \<and> percentile d = q \<and>
   (\<exists>vid. get_reader fs fn = Inr vid \<and>
      map Inr (frame_values d) = map (\<lambda>fr. np_percentile fr q) (decoded vid))"
  unfolding file_body_def
  by (auto split: sum.splits dest!: frame_loop_Inr)

lemma file_loop_Inr:
  "file_loop fs q files video_data opened = (Inr r, tr) \<Longrightarrow>
   \<exists>ds. r = video_data @ ds \<and> tr = opened @ files \<and>
        map Inr ds = map (file_body fs q) files"
proof (induction fs q files video_data opened rule: file_loop.induct)
  case (1 fs q video_data opened)
  then show ?case by simp
next
  case (2 fs q fn rest video_data opened)
  from "2.prems" obtain d where d: "file_body fs q fn = Inr d"
    and rest: "file_loop fs q rest (video_data @ [d]) (opened @ [fn]) = (Inr r, tr)"
    by (auto split: sum.splits)
  from "2.IH"[OF d rest] obtain ds where "r = (video_data @ [d]) @ ds"
    "tr = (opened @ [fn]) @ rest" "map Inr ds = map (file_body fs q) rest" by blast
  then have "r = video_data @ (d # ds) \<and> tr = opened @ fn # rest \<and>
    map Inr (d # ds) = map (file_body fs q) (fn # rest)" using d by simp
  then show ?case by blast
qed

lemma file_loop_all_ok:
  "\<forall>f\<in>set files. \<exists>d. file_body fs q f = Inr d \<Longrightarrow>
   \<exists>ds. file_loop fs q files video_data opened = (Inr (video_data @ ds), opened @ files) \<and>
        length ds = length files"
proof (induction files arbitrary: video_data opened)
  case Nil
  then show ?case by simp
next
  case (Cons fn rest)
  from Cons.prems obtain d where d: "file_body fs q fn = Inr d" by auto
  from Cons.prems have "\<forall>f\<in>set rest. \<exists>d. file_body fs q f = Inr d" by simp
  from Cons.IH[OF this, of "video_data @ [d]" "opened @ [fn]"] obtain ds where
    "file_loop fs q rest (video_data @ [d]) (opened @ [fn])
       = (Inr ((video_data @ [d]) @ ds), (opened @ [fn]) @ rest)" "length ds = length rest"
    by blast
  then have "file_loop fs q (fn # rest) video_data opened
       = (Inr (video_data @ (d # ds)), opened @ fn # rest) \<and> length (d # ds) = length (fn # rest)"
    using d by simp
  then show ?case by blast
qed

lemma file_loop_first_failure:
  "\<forall>f\<in>set pre. \<exists>d. file_body fs q f = Inr d \<Longrightarrow> file_body fs q bad = Inl e \<Longrightarrow>
   file_loop fs q (pre @ bad # post) video_data opened = (Inl e, opened @ pre @ [bad])"
proof (induction pre arbitrary: video_data opened)
  case Nil
  then show ?case by simp
next
  case (Cons fn rest)
  from Cons.prems obtain d where d: "file_body fs q fn = Inr d" by auto
  from Cons.prems have "\<forall>f\<in>set rest. \<exists>d. file_body fs q f = Inr d" by simp
  from Cons.IH[OF this Cons.prems(2), of "video_data @ [d]" "opened @ [fn]"] d
  show ?case by simp
qed

subsection \<open>The type check of \<^verbatim>\<open>get_frame_values\<close>\<close>

text \<open>
  Claim C10. When the argument \<^verbatim>\<open>video_files\<close> is not of type \<^verbatim>\<open>list\<close> exactly (a tuple, a
  generator, an instance of a subclass of \<^verbatim>\<open>list\<close>), \<^verbatim>\<open>get_frame_values\<close> raises
  \<^verbatim>\<open>AssertionError\<close>, and no file has been handed to the decoder: the trace is empty.
\<close>

theorem get_frame_values_not_list:
  "fst video_files \<noteq> PyList \<Longrightarrow>
   get_frame_values fs video_files percentile_value = (Inl AssertionError, [])"
  by (simp add: get_frame_values_def)

theorem get_frame_values_not_list_witness:
  "fst (PyTuple, [''a.mp4'']) \<noteq> PyList \<and>
   get_frame_values (Map.empty(''a.mp4'' \<mapsto> File (Some End))) (PyTuple, [''a.mp4'']) 95
     = (Inl AssertionError, [])"
  using get_frame_values_not_list
    [of "(PyTuple, [''a.mp4''])" "Map.empty(''a.mp4'' \<mapsto> File (Some End))" 95]
  by simp

subsection \<open>Evaluating the floor of a rational numeral\<close>

lemma floor_rat_numeral_divide [simp]:
  "\<lfloor>(numeral a :: rat) / numeral b\<rfloor> = numeral a div numeral b"
  using floor_divide_of_int_eq[of "numeral a" "numeral b", where ?'a = rat] by simp

lemma floor_rat_one_divide [simp]:
  "\<lfloor>(1 :: rat) / numeral b\<rfloor> = 1 div numeral b"
  using floor_divide_of_int_eq[of 1 "numeral b", where ?'a = rat] by simp

subsection \<open>A file that fails\<close>

text \<open>
  Claim C1, as the specification states it, does not hold: with the files good1, corrupt,
  good2, where corrupt cannot be opened, \<^verbatim>\<open>get_frame_values\<close> returns no batch result at
  all. The exception of the decoder leaves the function; the trace shows that good2 was
  never handed to the decoder.
\<close>

theorem failure_isolation_counterexample:
  "get_frame_values
     [''good1.mp4'' \<mapsto> File (Some (Frame [1, 3] End)),
      ''corrupt.mp4'' \<mapsto> File None,
      ''good2.mp4'' \<mapsto> File (Some (Frame [5] End))]
     (PyList, [''good1.mp4'', ''corrupt.mp4'', ''good2.mp4'']) 95
   = (Inl DecodeOpenError, [''good1.mp4'', ''corrupt.mp4''])"
  by (simp add: get_frame_values_def file_body_def get_reader_def np_percentile_def
      virtual_index_def lerp_def)

text \<open>
  Claim C1, amended. When the files before \<open>bad\<close> are processed without error and the
  processing of \<open>bad\<close> fails with \<open>e\<close> (the file cannot be opened, or decoding or the
  percentile fails partway through), \<^verbatim>\<open>get_frame_values\<close> raises \<open>e\<close>: it returns neither
  a failure marker nor the series of the other files, and the files after \<open>bad\<close> are not
  opened.
\<close>

theorem get_frame_values_aborts_at_first_failure:
  "\<forall>f\<in>set pre. \<exists>d. file_body fs q f = Inr d \<Longrightarrow> file_body fs q bad = Inl e \<Longrightarrow>
   get_frame_values fs (PyList, pre @ bad # post) q = (Inl e, pre @ [bad])"
  using file_loop_first_failure[of pre fs q bad e post "[]" "[]"]
  by (simp add: get_frame_values_def)

theorem get_frame_values_aborts_at_first_failure_witness:
  "get_frame_values
     [''good1.mp4'' \<mapsto> File (Some (Frame [1, 3] End)),
      ''corrupt.mp4'' \<mapsto> File (Some (Frame [2] Broken)),
      ''good2.mp4'' \<mapsto> File (Some (Frame [5] End))]
     (PyList, [''good1.mp4'', ''corrupt.mp4'', ''good2.mp4'']) 50
   = (Inl DecodeFrameError, [''good1.mp4'', ''corrupt.mp4''])"
  using get_frame_values_aborts_at_first_failure
    [of "[''good1.mp4'']"
     "[''good1.mp4'' \<mapsto> File (Some (Frame [1, 3] End)),
      ''corrupt.mp4'' \<mapsto> File (Some (Frame [2] Broken)),
      ''good2.mp4'' \<mapsto> File (Some (Frame [5] End))]"
     50 "''corrupt.mp4''" DecodeFrameError "[''good2.mp4'']"]
  by (simp add: file_body_def get_reader_def np_percentile_def virtual_index_def lerp_def)

subsection \<open>A path that is not a directory\<close>

text \<open>
  Claim C2, as the specification states it, does not hold: for a path at which nothing
  exists, \<^verbatim>\<open>identify_files\<close> returns normally, with the empty list and the count 0.
\<close>

theorem identify_files_missing_directory_counterexample:
  "identify_files posix [''videos'' \<mapsto> Dir True [''a.mp4'']] ''missing'' = Inr ([], 0)"
  by (simp add: identify_files_def glob_def)

text \<open>
  Claim C2, amended. On every platform:
  \<^item> for a path at which nothing exists, and for a path that exists but is not a
    directory, \<^verbatim>\<open>identify_files\<close> returns the empty list and the count 0, without an
    error;
  \<^item> it returns the same for a directory none of whose entries matches \<^verbatim>\<open>*.mp4\<close> as the
    platform matches it;
  \<^item> for a path that cannot be examined (its name is too long, a directory above it may
    not be searched), the \<^verbatim>\<open>OSError\<close> of \<^verbatim>\<open>pathlib\<close> leaves the function;
  \<^item> it never fails with \<open>PathError\<close>.
\<close>

theorem identify_files_nothing_found:
  "(fs p = None \<or> (\<exists>content. fs p = Some (File content))
      \<longrightarrow> identify_files pf fs p = Inr ([], 0)) \<and>
   (\<forall>writable entries.
      fs p = Some (Dir writable entries) \<and> (\<forall>name\<in>set entries. \<not> matches_mp4 pf name)
      \<longrightarrow> identify_files pf fs p = Inr ([], 0)) \<and>
   (fs p = Some StatFails \<longrightarrow> identify_files pf fs p = Inl OSError) \<and>
   identify_files pf fs p \<noteq> Inl PathError"
  by (auto simp: identify_files_def glob_def split: option.splits node.splits)

theorem identify_files_nothing_found_witness:
  "identify_files posix
     [''videos'' \<mapsto> Dir True [''a.mp4''], ''notes'' \<mapsto> Dir True [''b.txt'', ''C.MP4''],
      ''f'' \<mapsto> File None, ''long'' \<mapsto> StatFails] ''gone'' = Inr ([], 0) \<and>
   identify_files posix
     [''videos'' \<mapsto> Dir True [''a.mp4''], ''notes'' \<mapsto> Dir True [''b.txt'', ''C.MP4''],
      ''f'' \<mapsto> File None, ''long'' \<mapsto> StatFails] ''f'' = Inr ([], 0) \<and>
   identify_files posix
     [''videos'' \<mapsto> Dir True [''a.mp4''], ''notes'' \<mapsto> Dir True [''b.txt'', ''C.MP4''],
      ''f'' \<mapsto> File None, ''long'' \<mapsto> StatFails] ''notes'' = Inr ([], 0) \<and>
   identify_files posix
     [''videos'' \<mapsto> Dir True [''a.mp4''], ''notes'' \<mapsto> Dir True [''b.txt'', ''C.MP4''],
      ''f'' \<mapsto> File None, ''long'' \<mapsto> StatFails] ''long'' = Inl OSError"
  using
    identify_files_nothing_found
      [of "[''videos'' \<mapsto> Dir True [''a.mp4''], ''notes'' \<mapsto> Dir True [''b.txt'', ''C.MP4''],
      ''f'' \<mapsto> File None, ''long'' \<mapsto> StatFails]" "''gone''" posix]
    identify_files_nothing_found
      [of "[''videos'' \<mapsto> Dir True [''a.mp4''], ''notes'' \<mapsto> Dir True [''b.txt'', ''C.MP4''],
      ''f'' \<mapsto> File None, ''long'' \<mapsto> StatFails]" "''f''" posix]
    identify_files_nothing_found
      [of "[''videos'' \<mapsto> Dir True [''a.mp4''], ''notes'' \<mapsto> Dir True [''b.txt'', ''C.MP4''],
      ''f'' \<mapsto> File None, ''long'' \<mapsto> StatFails]" "''notes''" posix]
    identify_files_nothing_found
      [of "[''videos'' \<mapsto> Dir True [''a.mp4''], ''notes'' \<mapsto> Dir True [''b.txt'', ''C.MP4''],
      ''f'' \<mapsto> File None, ''long'' \<mapsto> StatFails]" "''long''" posix]
  by (auto simp: posix_def posix_matches_mp4_def)

text \<open>
  The match is the platform's: the directory \<^verbatim>\<open>notes\<close> above, which holds nothing for POSIX,
  holds one video for a platform that matches as Windows does.
\<close>

lemma identify_files_ignoring_case:
  "identify_files (posix\<lparr>matches_mp4 := windows_matches_mp4\<rparr>)
     [''videos'' \<mapsto> Dir True [''a.mp4''], ''notes'' \<mapsto> Dir True [''b.txt'', ''C.MP4''],
      ''f'' \<mapsto> File None, ''long'' \<mapsto> StatFails] ''notes'' = Inr ([''notes/C.MP4''], 1)"
  by (simp add: identify_files_def glob_def posix_def windows_matches_mp4_def
      posix_joinpath_def)

subsection \<open>The empty frame\<close>

text \<open>
  Claim C3, as the specification states it, does not hold: the percentile of an empty
  frame fails, but with the \<^verbatim>\<open>IndexError\<close> of numpy, not with an error of its own kind.
\<close>

theorem empty_frame_error_counterexample:
  "np_percentile [] 95 = Inl IndexError \<and> np_percentile [] 95 \<noteq> Inl EmptyFrameError"
  by (simp add: np_percentile_def)

text \<open>
  Claim C3, amended. For every percentile in \<open>[0, 100]\<close> the percentile of an empty frame
  fails with \<^verbatim>\<open>IndexError\<close>; for every other percentile it fails with \<^verbatim>\<open>ValueError\<close>, as
  for any frame.
\<close>

theorem np_percentile_empty_frame:
  "np_percentile [] q = (if q < 0 \<or> 100 < q then Inl ValueError else Inl IndexError)"
  by (simp add: np_percentile_def)

subsection \<open>One entry per file\<close>

text \<open>
  Claim C5, as the specification states it, does not hold for every list of files: when
  the only file breaks after its first frame, there is no batch result, so none of
  length 1.
\<close>

theorem cardinality_counterexample:
  "get_frame_values [''corrupt.mp4'' \<mapsto> File (Some (Frame [7] Broken))]
     (PyList, [''corrupt.mp4'']) 95 = (Inl DecodeFrameError, [''corrupt.mp4''])"
  by (simp add: get_frame_values_def file_body_def get_reader_def np_percentile_def
      virtual_index_def lerp_def)

text \<open>
  Claim C5, amended. Whenever \<^verbatim>\<open>get_frame_values\<close> returns a list, the list has one entry
  per file. It does return one when every file is processed without error, and then
  every file has been opened; for the empty list of files it returns the empty list, not
  an error.
\<close>

theorem get_frame_values_cardinality:
  "(\<forall>r tr. get_frame_values fs (PyList, files) q = (Inr r, tr) \<longrightarrow> length r = length files) \<and>
   ((\<forall>f\<in>set files. \<exists>d. file_body fs q f = Inr d) \<longrightarrow>
      (\<exists>r. get_frame_values fs (PyList, files) q = (Inr r, files) \<and> length r = length files)) \<and>
   get_frame_values fs (PyList, []) q = (Inr [], [])"
proof (intro conjI allI impI)
  fix r tr
  assume "get_frame_values fs (PyList, files) q = (Inr r, tr)"
  then have "file_loop fs q files [] [] = (Inr r, tr)"
    by (simp add: get_frame_values_def)
  from file_loop_Inr[OF this] have "map Inr r = map (file_body fs q) files"
    by auto
  then have "length (map Inr r :: (error + value_dict) list) = length (map (file_body fs q) files)"
    by simp
  then show "length r = length files" by simp
next
  assume "\<forall>f\<in>set files. \<exists>d. file_body fs q f = Inr d"
  from file_loop_all_ok[OF this, of "[]" "[]"]
  show "\<exists>r. get_frame_values fs (PyList, files) q = (Inr r, files) \<and> length r = length files"
    by (simp add: get_frame_values_def)
next
  show "get_frame_values fs (PyList, []) q = (Inr [], [])"
    by (simp add: get_frame_values_def)
qed

theorem get_frame_values_cardinality_witness:
  "\<exists>r. get_frame_values
          [''a.mp4'' \<mapsto> File (Some (Frame [1, 3] End)), ''b.mp4'' \<mapsto> File (Some End)]
          (PyList, [''a.mp4'', ''b.mp4'']) 50 = (Inr r, [''a.mp4'', ''b.mp4'']) \<and>
       length r = 2"
proof -
  have ok: "\<forall>f\<in>set [''a.mp4'', ''b.mp4''].
      \<exists>d. file_body
             [''a.mp4'' \<mapsto> File (Some (Frame [1, 3] End)), ''b.mp4'' \<mapsto> File (Some End)]
             50 f = Inr d"
    by (simp add: file_body_def get_reader_def np_percentile_def virtual_index_def lerp_def)
  from get_frame_values_cardinality
    [of "[''a.mp4'' \<mapsto> File (Some (Frame [1, 3] End)), ''b.mp4'' \<mapsto> File (Some End)]"
     "[''a.mp4'', ''b.mp4'']" 50] ok
  show ?thesis by auto
qed

subsection \<open>The percentile of a frame that is not empty\<close>

lemma lerp_between:
  assumes "a \<le> b" "0 \<le> t" "t \<le> 1"
  shows "a \<le> lerp a b t \<and> lerp a b t \<le> b"
proof -
  have "0 \<le> (b - a) * t" using assms by simp
  moreover have "(b - a) * t \<le> (b - a) * 1"
    using assms by (intro mult_left_mono) auto
  ultimately show ?thesis by (simp add: lerp_def)
qed

lemma virtual_index_bounds:
  assumes "0 \<le> q" "q \<le> 100"
  shows "0 \<le> virtual_index n q \<and> virtual_index n q \<le> of_nat (n - 1)"
proof -
  have q: "0 \<le> (of_int q / 100 :: rat)" "(of_int q / 100 :: rat) \<le> 1"
    using assms by simp_all
  have "of_nat (n - 1) * (of_int q / 100 :: rat) \<le> of_nat (n - 1) * 1"
    using q by (intro mult_left_mono) auto
  with q show ?thesis by (simp add: virtual_index_def)
qed

text \<open>
  With a percentile in \<open>[0, 100]\<close> and at least one sample, \<^verbatim>\<open>np.percentile\<close> returns
  an interpolation between two samples of the sorted frame, the first not after the second.
\<close>

lemma np_percentile_value:
  assumes "0 \<le> q" "q \<le> 100" "a \<noteq> []"
  shows "\<exists>i j t. np_percentile a q = Inr (lerp (sort a ! i) (sort a ! j) t) \<and>
           i \<le> j \<and> j < length a \<and> 0 \<le> t \<and> t \<le> 1"
proof -
  let ?n = "length a"
  let ?h = "virtual_index ?n q"
  from assms(3) have n: "0 < ?n" by simp
  from virtual_index_bounds[OF assms(1,2), of ?n] have h: "0 \<le> ?h" "?h \<le> of_nat (?n - 1)" by auto
  have t: "0 \<le> ?h - of_int \<lfloor>?h\<rfloor>" "?h - of_int \<lfloor>?h\<rfloor> \<le> 1"
    by linarith+
  show ?thesis
  proof (cases "of_nat (?n - 1) \<le> ?h")
    case True
    then have "np_percentile a q =
      Inr (lerp (sort a ! (?n - 1)) (sort a ! (?n - 1)) (?h - of_int \<lfloor>?h\<rfloor>))"
      using assms by (simp add: np_percentile_def Let_def)
    with n t show ?thesis by (intro exI[of _ "?n - 1"] exI[of _ "?h - of_int \<lfloor>?h\<rfloor>"]) simp
  next
    case False
    then have lt: "?h < of_nat (?n - 1)" by simp
    have "\<lfloor>?h\<rfloor> < int (?n - 1)" using lt by (simp add: floor_less_iff)
    moreover have "0 \<le> \<lfloor>?h\<rfloor>" using h by simp
    ultimately have i: "nat \<lfloor>?h\<rfloor> + 1 < ?n" by linarith
    from False have "np_percentile a q =
      Inr (lerp (sort a ! nat \<lfloor>?h\<rfloor>) (sort a ! (nat \<lfloor>?h\<rfloor> + 1)) (?h - of_int \<lfloor>?h\<rfloor>))"
      using assms by (simp add: np_percentile_def Let_def)
    with i t show ?thesis
      by (intro exI[of _ "nat \<lfloor>?h\<rfloor>"] exI[of _ "nat \<lfloor>?h\<rfloor> + 1"] exI[of _ "?h - of_int \<lfloor>?h\<rfloor>"]) simp
  qed
qed

text \<open>
  Claim C7. For every percentile in \<open>[0, 100]\<close> and every frame with at least one sample,
  the percentile reduction returns a number, and it lies between the least and the greatest
  sample of the frame, both included.
\<close>

theorem np_percentile_within_min_max:
  assumes "0 \<le> q" "q \<le> 100" "a \<noteq> []"
  shows "\<exists>v. np_percentile a q = Inr v \<and> Min (set a) \<le> v \<and> v \<le> Max (set a)"
proof -
  from np_percentile_value[OF assms] obtain i j t where
    v: "np_percentile a q = Inr (lerp (sort a ! i) (sort a ! j) t)"
    and ij: "i \<le> j" "j < length a" and t: "0 \<le> t" "t \<le> 1" by blast
  have len: "length (sort a) = length a" by simp
  have "sort a ! i \<le> sort a ! j"
    using ij by (intro sorted_nth_mono) simp_all
  from lerp_between[OF this t]
  have b: "sort a ! i \<le> lerp (sort a ! i) (sort a ! j) t"
    "lerp (sort a ! i) (sort a ! j) t \<le> sort a ! j" by simp_all
  have "sort a ! i \<in> set (sort a)" "sort a ! j \<in> set (sort a)"
    using ij by (simp_all only: nth_mem len)
  then have mem: "sort a ! i \<in> set a" "sort a ! j \<in> set a" by simp_all
  have "Min (set a) \<le> sort a ! i" using mem by simp
  moreover have "sort a ! j \<le> Max (set a)" using mem by simp
  ultimately show ?thesis using v b by auto
qed

theorem np_percentile_within_min_max_witness:
  "\<exists>v. np_percentile [3, 1, 2, 7] 50 = Inr v \<and>
       Min (set [3, 1, 2, 7]) \<le> v \<and> v \<le> Max (set [3, 1, 2, 7])"
  using np_percentile_within_min_max[of 50 "[3, 1, 2, 7]"] by simp

subsection \<open>The known value\<close>

text \<open>
  \<^verbatim>\<open>np.percentile\<close> computes the interpolated order statistic of the specification: the
  two differ in how they pick the upper neighbour (the floor plus one, or the ceiling) and
  in the treatment of the last index, not in the value.
\<close>

lemma np_percentile_interpolated:
  assumes "0 \<le> q" "q \<le> 100" "a \<noteq> []"
  shows "np_percentile a q = Inr (interpolated_order_statistic a q)"
proof -
  let ?n = "length a"
  let ?xs = "sort a"
  let ?h = "virtual_index ?n q"
  from assms(3) have n: "0 < ?n" by simp
  from assms(3) have "1 \<le> ?n" by (cases a) simp_all
  then have "rat_of_nat (?n - 1) = of_nat ?n - of_nat 1" by (rule of_nat_diff)
  then have r: "of_int q / 100 * (of_nat (length ?xs) - 1) = ?h"
    by (simp add: virtual_index_def)
  from virtual_index_bounds[OF assms(1,2), of ?n] have h: "0 \<le> ?h" "?h \<le> of_nat (?n - 1)" by auto
  have fl: "0 \<le> \<lfloor>?h\<rfloor>" using h by simp
  have spec: "interpolated_order_statistic a q =
      ?xs ! nat \<lfloor>?h\<rfloor> + (?h - of_int \<lfloor>?h\<rfloor>) * (?xs ! nat \<lceil>?h\<rceil> - ?xs ! nat \<lfloor>?h\<rfloor>)"
    unfolding interpolated_order_statistic_def Let_def r using fl by simp
  show ?thesis
  proof (cases "of_nat (?n - 1) \<le> ?h")
    case True
    with h have eq: "?h = of_nat (?n - 1)" by simp
    have "np_percentile a q = Inr (?xs ! (?n - 1))"
      using assms True by (simp add: np_percentile_def Let_def lerp_def)
    moreover have "interpolated_order_statistic a q = ?xs ! (?n - 1)"
      unfolding spec eq by simp
    ultimately show ?thesis by simp
  next
    case False
    then have np: "np_percentile a q =
      Inr (lerp (?xs ! nat \<lfloor>?h\<rfloor>) (?xs ! (nat \<lfloor>?h\<rfloor> + 1)) (?h - of_int \<lfloor>?h\<rfloor>))"
      using assms by (simp add: np_percentile_def Let_def)
    show ?thesis
    proof (cases "?h = of_int \<lfloor>?h\<rfloor>")
      case True
      then have "?h - of_int \<lfloor>?h\<rfloor> = 0" by simp
      then show ?thesis unfolding np spec by (simp add: lerp_def)
    next
      case False
      then have "\<lceil>?h\<rceil> = \<lfloor>?h\<rfloor> + 1"
        by (metis ceiling_altdef)
      then have "nat \<lceil>?h\<rceil> = nat \<lfloor>?h\<rfloor> + 1" using fl by linarith
      then show ?thesis unfolding np spec by (simp add: lerp_def algebra_simps)
    qed
  qed
qed

lemma sort_one_to_hundred:
  assumes "mset a = mset (map rat_of_int [1..100])"
  shows "sort a = map rat_of_int [1..100]"
proof -
  have "sorted (map rat_of_int [1..100])"
    by (simp add: sorted_map sorted_wrt_iff_nth_less)
  with assms show ?thesis by (metis properties_for_sort)
qed

text \<open>
  Claim C4. For a frame whose samples are the 100 values 1 to 100, in any order, the
  percentile reduction with percentile 95 returns the linear interpolation between the two
  nearest order statistics: the requested rank is \<open>0.95 * 99 = 94.05\<close>, between the
  samples 95 and 96, so the value is \<open>95.05\<close>.
\<close>

theorem np_percentile_known_value:
  assumes "mset a = mset (map rat_of_int [1..100])"
  shows "np_percentile a 95 = Inr (1901 / 20) \<and> interpolated_order_statistic a 95 = 1901 / 20"
proof -
  from assms have "a \<noteq> []" by auto
  then have np: "np_percentile a 95 = Inr (interpolated_order_statistic a 95)"
    by (intro np_percentile_interpolated) simp_all
  have xs: "sort a = map rat_of_int [1..100]" by (rule sort_one_to_hundred[OF assms])
  have fl: "\<lfloor>1881 / 20 :: rat\<rfloor> = 94" by simp
  have ce: "\<lceil>1881 / 20 :: rat\<rceil> = 95" by (rule ceiling_unique) simp_all
  have lo: "map rat_of_int [1..100] ! 94 = 95" by (simp add: nth_upto)
  have hi: "map rat_of_int [1..100] ! 95 = 96" by (simp add: nth_upto)
  have "interpolated_order_statistic a 95 = 1901 / 20"
    unfolding interpolated_order_statistic_def Let_def xs
    by (simp add: fl ce lo hi)
  with np show ?thesis by simp
qed

theorem np_percentile_known_value_witness:
  "np_percentile (rev (map rat_of_int [1..100])) 95 = Inr (1901 / 20) \<and>
   interpolated_order_statistic (rev (map rat_of_int [1..100])) 95 = 1901 / 20"
  using np_percentile_known_value[of "rev (map rat_of_int [1..100])"] by simp

subsection \<open>Order of the entries and of the values\<close>

text \<open>
  Claim C6. In the list that \<^verbatim>\<open>get_frame_values\<close> returns, entry \<open>i\<close> is the dictionary of
  the \<open>i\<close>-th file of the argument, and in each dictionary the value at index \<open>k\<close> is the
  percentile of the \<open>k\<close>-th frame that the decoder yielded for that file: there is one value
  per frame, in decode order.
\<close>

theorem get_frame_values_order:
  assumes "get_frame_values fs video_files q = (Inr video_data, opened)"
  shows "map fname video_data = snd video_files \<and>
         (\<forall>i<length (snd video_files). \<exists>vid.
            get_reader fs (snd video_files ! i) = Inr vid \<and>
            length (frame_values (video_data ! i)) = length (decoded vid) \<and>
            (\<forall>k<length (decoded vid).
               np_percentile (decoded vid ! k) q = Inr (frame_values (video_data ! i) ! k)))"
proof -
  let ?files = "snd video_files"
  from assms have loop: "file_loop fs q ?files [] [] = (Inr video_data, opened)"
    by (simp add: get_frame_values_def split: if_splits)
  from file_loop_Inr[OF loop] have m: "map Inr video_data = map (file_body fs q) ?files"
    by auto
  then have "length (map Inr video_data :: (error + value_dict) list)
      = length (map (file_body fs q) ?files)" by simp
  then have len: "length video_data = length ?files" by simp
  have body: "file_body fs q (?files ! i) = Inr (video_data ! i)" if "i < length ?files" for i
  proof -
    from m have "map (file_body fs q) ?files ! i = (map Inr video_data :: (error + value_dict) list) ! i"
      by simp
    with that len show ?thesis by simp
  qed
  have names: "map fname video_data = ?files"
  proof (rule nth_equalityI)
    show "length (map fname video_data) = length ?files" using len by simp
  next
    fix i assume "i < length (map fname video_data)"
    then have i: "i < length ?files" using len by simp
    from file_body_Inr[OF body[OF i]] have "fname (video_data ! i) = ?files ! i" by simp
    with i len show "map fname video_data ! i = ?files ! i" by simp
  qed
  have series: "\<exists>vid. get_reader fs (?files ! i) = Inr vid \<and>
            length (frame_values (video_data ! i)) = length (decoded vid) \<and>
            (\<forall>k<length (decoded vid).
               np_percentile (decoded vid ! k) q = Inr (frame_values (video_data ! i) ! k))"
    if i: "i < length ?files" for i
  proof -
    from file_body_Inr[OF body[OF i]] obtain vid where
      vid: "get_reader fs (?files ! i) = Inr vid"
      and vs: "map Inr (frame_values (video_data ! i)) = map (\<lambda>fr. np_percentile fr q) (decoded vid)"
      by blast
    from vs have "length (map Inr (frame_values (video_data ! i)) :: (error + rat) list)
       = length (map (\<lambda>fr. np_percentile fr q) (decoded vid))" by simp
    then have l: "length (frame_values (video_data ! i)) = length (decoded vid)" by simp
    have "np_percentile (decoded vid ! k) q = Inr (frame_values (video_data ! i) ! k)"
      if k: "k < length (decoded vid)" for k
    proof -
      from vs have "map (\<lambda>fr. np_percentile fr q) (decoded vid) ! k
         = (map Inr (frame_values (video_data ! i)) :: (error + rat) list) ! k" by simp
      with k l show ?thesis by simp
    qed
    with vid l show ?thesis by blast
  qed
  from names series show ?thesis by blast
qed

theorem get_frame_values_order_witness:
  "get_frame_values
     [''a.mp4'' \<mapsto> File (Some (Frame [1, 3] (Frame [4] End))),
      ''b.mp4'' \<mapsto> File (Some (Frame [2] End))]
     (PyList, [''a.mp4'', ''b.mp4'']) 50
   = (Inr [\<lparr>fname = ''a.mp4'', frame_values = [2, 4], percentile = 50\<rparr>,
           \<lparr>fname = ''b.mp4'', frame_values = [2], percentile = 50\<rparr>],
      [''a.mp4'', ''b.mp4'']) \<and>
   map fname [\<lparr>fname = ''a.mp4'', frame_values = [2, 4], percentile = 50\<rparr>,
           \<lparr>fname = ''b.mp4'', frame_values = [2], percentile = 50\<rparr>] = [''a.mp4'', ''b.mp4'']"
proof -
  have h: "get_frame_values
     [''a.mp4'' \<mapsto> File (Some (Frame [1, 3] (Frame [4] End))),
      ''b.mp4'' \<mapsto> File (Some (Frame [2] End))]
     (PyList, [''a.mp4'', ''b.mp4'']) 50
   = (Inr [\<lparr>fname = ''a.mp4'', frame_values = [2, 4], percentile = 50\<rparr>,
           \<lparr>fname = ''b.mp4'', frame_values = [2], percentile = 50\<rparr>],
      [''a.mp4'', ''b.mp4''])"
    by (simp add: get_frame_values_def file_body_def get_reader_def np_percentile_def
        virtual_index_def lerp_def)
  from get_frame_values_order[OF h] h show ?thesis by simp
qed

subsection \<open>Decimal numerals\<close>

text \<open>\<open>str\<close> of an integer is a decimal numeral of it: \<open>int\<close> reads it back.\<close>

lemma digit_value_digit:
  assumes "d < 10"
  shows "digit_value (''0123456789'' ! d) = d"
proof -
  have "\<forall>k\<in>set [0..<10]. digit_value (''0123456789'' ! k) = k"
    by code_simp
  moreover from assms have "d \<in> set [0..<10]" by simp
  ultimately show ?thesis by blast
qed

lemma nat_of_str_snoc:
  "nat_of_str (s @ [c]) = 10 * nat_of_str s + digit_value c"
  by (simp add: nat_of_str_def)

lemma nat_of_str_str_nat:
  "nat_of_str (str_nat n) = n"
proof (induction n rule: str_nat.induct)
  case (1 n)
  show ?case
  proof (cases "n < 10")
    case True
    then have "str_nat n = [''0123456789'' ! n]" by (subst str_nat.simps) simp
    with True show ?thesis
      using digit_value_digit[of n] by (simp add: nat_of_str_def)
  next
    case False
    then have "str_nat n = str_nat (n div 10) @ [''0123456789'' ! (n mod 10)]"
      by (subst str_nat.simps) simp
    moreover have "digit_value (''0123456789'' ! (n mod 10)) = n mod 10"
      by (rule digit_value_digit) simp
    ultimately show ?thesis
      using "1.IH"[OF False] by (simp add: nat_of_str_snoc)
  qed
qed

lemma str_nat_digits:
  "set (str_nat n) \<subseteq> set ''0123456789''"
proof (induction n rule: str_nat.induct)
  case (1 n)
  have digit: "''0123456789'' ! d \<in> set ''0123456789''" if "d < 10" for d
    using that by (intro nth_mem) simp
  show ?case
  proof (cases "n < 10")
    case True
    then have "str_nat n = [''0123456789'' ! n]" by (subst str_nat.simps) simp
    with digit[OF True] show ?thesis by simp
  next
    case False
    then have "str_nat n = str_nat (n div 10) @ [''0123456789'' ! (n mod 10)]"
      by (subst str_nat.simps) simp
    moreover have "''0123456789'' ! (n mod 10) \<in> set ''0123456789''"
      by (rule digit) simp
    ultimately show ?thesis using "1.IH"[OF False] by simp
  qed
qed

lemma str_nat_not_empty: "str_nat n \<noteq> []"
  by (subst str_nat.simps) simp

lemma int_of_str_str_int:
  "int_of_str (str_int i) = i"
proof (cases "i < 0")
  case True
  then show ?thesis
    by (simp add: str_int_def int_of_str_def nat_of_str_str_nat)
next
  case False
  obtain c r where cr: "str_nat (nat i) = c # r"
    using str_nat_not_empty[of "nat i"] by (cases "str_nat (nat i)") auto
  have "c \<in> set ''0123456789''"
    using str_nat_digits[of "nat i"] cr by auto
  then have "c \<noteq> CHR ''-''" by auto
  with False cr show ?thesis
    using nat_of_str_str_nat[of "nat i"] by (simp add: str_int_def int_of_str_def)
qed

subsection \<open>The CSV files\<close>

lemma write_rows_eq:
  "write_rows str_float vs csvfile = csvfile @ map (\<lambda>v. [str_float v]) vs"
  by (induction vs arbitrary: csvfile) simp_all

lemma read_csv_rows:
  "read_csv (map (\<lambda>v. [str_float v]) vs) = Some (map str_float vs)"
  by (induction vs) simp_all

text \<open>
  A file that no dictionary of the list names is left as it was, whether or not the
  function raises on the way.
\<close>

lemma plot_frame_values_other_name:
  "\<forall>d\<in>set xs. csv_name d \<noteq> name \<Longrightarrow>
   tables (snd (plot_frame_values pf fs str_float p xs out)) name = tables out name"
  by (induction xs arbitrary: out) (auto simp: Let_def)

text \<open>As long as every file can be created, the loop goes on.\<close>

lemma plot_frame_values_append:
  "\<forall>d\<in>set xs. can_create pf fs (png_path pf p d) \<and> can_create pf fs (csv_name d) \<Longrightarrow>
   plot_frame_values pf fs str_float p (xs @ ys) out
     = plot_frame_values pf fs str_float p ys
         (snd (plot_frame_values pf fs str_float p xs out))"
  by (induction xs arbitrary: out) (simp_all add: Let_def)

text \<open>
  What the loop writes when the files can be created. Let \<open>d\<close> be a series of the list
  handed to \<^verbatim>\<open>plot_frame_values\<close>. If, for \<open>d\<close> and for every series before it, the figure
  can be saved and the CSV file can be opened for writing, and if no later series has the
  file name of \<open>d\<close>, then after the call the file named \<^verbatim>\<open>{fname}_{percentile}.csv\<close>, with the
  percentile as a decimal numeral, holds one row per frame value of \<open>d\<close>, in the order of
  the series and with no header row, each row the text of that value alone. Reading the
  file back gives these texts in the same order, and so the values themselves wherever
  \<open>float\<close> reads back what \<open>str\<close> printed.
\<close>

lemma plot_frame_values_csv_rows:
  assumes creatable: "\<forall>d'\<in>set (before @ [d]).
      can_create pf fs (png_path pf p d') \<and> can_create pf fs (csv_name d')"
    and later: "\<forall>d'\<in>set after. csv_name d' \<noteq> csv_name d"
  shows "tables (snd (plot_frame_values pf fs str_float p (before @ d # after) out))
       (fname d @ ''_'' @ str_int (percentile d) @ ''.csv'')
       = Some (map (\<lambda>v. [str_float v]) (frame_values d)) \<and>
     int_of_str (str_int (percentile d)) = percentile d \<and>
     read_back (snd (plot_frame_values pf fs str_float p (before @ d # after) out))
       (fname d @ ''_'' @ str_int (percentile d) @ ''.csv'')
       = Some (map str_float (frame_values d)) \<and>
     ((\<forall>v\<in>set (frame_values d). float_of_str (str_float v) = v) \<longrightarrow>
        map_option (map float_of_str)
          (read_back (snd (plot_frame_values pf fs str_float p (before @ d # after) out))
             (fname d @ ''_'' @ str_int (percentile d) @ ''.csv''))
        = Some (frame_values d))"
proof -
  let ?rows = "map (\<lambda>v. [str_float v]) (frame_values d)"
  let ?run = "snd (plot_frame_values pf fs str_float p (before @ d # after) out)"
  let ?name = "fname d @ ''_'' @ str_int (percentile d) @ ''.csv''"
  from creatable have b: "\<forall>d'\<in>set before.
      can_create pf fs (png_path pf p d') \<and> can_create pf fs (csv_name d')"
    and d: "can_create pf fs (png_path pf p d)" "can_create pf fs (csv_name d)"
    by simp_all
  let ?o = "snd (plot_frame_values pf fs str_float p before out)"
  let ?saved = "?o\<lparr>figures := figures ?o @ [png_path pf p d]\<rparr>"
  let ?written = "?saved\<lparr>tables := (tables ?saved)
      (csv_name d \<mapsto> write_rows str_float (frame_values d) [])\<rparr>"
  have "plot_frame_values pf fs str_float p (before @ d # after) out
     = plot_frame_values pf fs str_float p (d # after) ?o"
    using b by (rule plot_frame_values_append)
  also have "\<dots> = plot_frame_values pf fs str_float p after ?written"
    using d by (simp add: Let_def)
  finally have "tables ?run (csv_name d) = tables ?written (csv_name d)"
    using plot_frame_values_other_name[OF later] by simp
  then have written: "tables ?run ?name = Some ?rows"
    by (simp add: write_rows_eq csv_name_def)
  then have texts: "read_back ?run ?name = Some (map str_float (frame_values d))"
    by (simp add: read_back_def read_csv_rows)
  have floats: "map_option (map float_of_str) (read_back ?run ?name) = Some (frame_values d)"
    if rt: "\<forall>v\<in>set (frame_values d). float_of_str (str_float v) = v"
  proof -
    have "map (\<lambda>v. float_of_str (str_float v)) (frame_values d) = frame_values d"
      using rt by (intro map_idI) simp
    then show ?thesis unfolding texts by (simp add: comp_def)
  qed
  from written texts floats int_of_str_str_int show ?thesis
    by simp
qed

lemma plot_frame_values_csv_rows_example:
  "tables (snd (plot_frame_values posix
          [''/data'' \<mapsto> Dir True [''a.mp4'', ''b.mp4''],
      ''/data/a.mp4'' \<mapsto> File (Some (Frame [1, 3] (Frame [4] End))),
      ''/data/b.mp4'' \<mapsto> File (Some (Frame [7] End))]
          str_whole ''/data''
          [\<lparr>fname = ''/data/a.mp4'', frame_values = [2, 4], percentile = 50\<rparr>,
           \<lparr>fname = ''/data/b.mp4'', frame_values = [7], percentile = 95\<rparr>]
          \<lparr>figures = [], tables = Map.empty\<rparr>)) ''/data/b.mp4_95.csv'' = Some [[''7.0'']] \<and>
   int_of_str ''95'' = 95 \<and>
   read_back (snd (plot_frame_values posix
          [''/data'' \<mapsto> Dir True [''a.mp4'', ''b.mp4''],
      ''/data/a.mp4'' \<mapsto> File (Some (Frame [1, 3] (Frame [4] End))),
      ''/data/b.mp4'' \<mapsto> File (Some (Frame [7] End))]
          str_whole ''/data''
          [\<lparr>fname = ''/data/a.mp4'', frame_values = [2, 4], percentile = 50\<rparr>,
           \<lparr>fname = ''/data/b.mp4'', frame_values = [7], percentile = 95\<rparr>]
          \<lparr>figures = [], tables = Map.empty\<rparr>)) ''/data/b.mp4_95.csv'' = Some [''7.0''] \<and>
   map_option (map float_whole)
     (read_back (snd (plot_frame_values posix
          [''/data'' \<mapsto> Dir True [''a.mp4'', ''b.mp4''],
      ''/data/a.mp4'' \<mapsto> File (Some (Frame [1, 3] (Frame [4] End))),
      ''/data/b.mp4'' \<mapsto> File (Some (Frame [7] End))]
          str_whole ''/data''
          [\<lparr>fname = ''/data/a.mp4'', frame_values = [2, 4], percentile = 50\<rparr>,
           \<lparr>fname = ''/data/b.mp4'', frame_values = [7], percentile = 95\<rparr>]
          \<lparr>figures = [], tables = Map.empty\<rparr>)) ''/data/b.mp4_95.csv'') = Some [7]"
proof -
  have creatable: "\<forall>d'\<in>set ([\<lparr>fname = ''/data/a.mp4'', frame_values = [2, 4], percentile = 50\<rparr>]
        @ [\<lparr>fname = ''/data/b.mp4'', frame_values = [7], percentile = 95\<rparr>]).
      can_create posix
        [''/data'' \<mapsto> Dir True [''a.mp4'', ''b.mp4''],
      ''/data/a.mp4'' \<mapsto> File (Some (Frame [1, 3] (Frame [4] End))),
      ''/data/b.mp4'' \<mapsto> File (Some (Frame [7] End))]
        (png_path posix ''/data'' d') \<and>
      can_create posix
        [''/data'' \<mapsto> Dir True [''a.mp4'', ''b.mp4''],
      ''/data/a.mp4'' \<mapsto> File (Some (Frame [1, 3] (Frame [4] End))),
      ''/data/b.mp4'' \<mapsto> File (Some (Frame [7] End))]
        (csv_name d')"
    by code_simp
  have later: "\<forall>d'\<in>set []. csv_name d' \<noteq> csv_name \<lparr>fname = ''/data/b.mp4'', frame_values = [7], percentile = 95\<rparr>"
    by simp
  have texts: "str_int 95 = ''95''" "str_whole 7 = ''7.0''" "float_whole ''7.0'' = 7"
    by code_simp+
  from plot_frame_values_csv_rows[OF creatable later, of str_whole "\<lparr>figures = [], tables = Map.empty\<rparr>" float_whole]
  show ?thesis
    by (simp add: texts)
qed

text \<open>
  Claim C8. By its own comments the script saves, for every video, the figure "in the
  folder defined" (line 125) and the values "in a .csv file in the folder defined" (line
  128), one CSV file per video file. It does not for a relative folder. With the folder
  \<^verbatim>\<open>videos\<close> that holds \<^verbatim>\<open>a.mp4\<close>, the three calls of \<^verbatim>\<open>main\<close> (lines 158 to 160) go as
  follows: the file found is \<^verbatim>\<open>videos/a.mp4\<close>; its series is computed; line 126 then joins
  the folder in front of a file name that already carries it and asks for the figure
  \<^verbatim>\<open>videos/videos/a.mp4_50.png\<close>, in a directory that does not exist. Saving the figure
  raises, and the CSV file of the series is never written.
\<close>

theorem relative_folder_no_csv:
  "identify_files posix
     [''videos'' \<mapsto> Dir True [''a.mp4''],
      ''videos/a.mp4'' \<mapsto> File (Some (Frame [1, 3] End)),
      ''.'' \<mapsto> Dir True [''videos'']] ''videos'' = Inr ([''videos/a.mp4''], 1) \<and>
   get_frame_values
     [''videos'' \<mapsto> Dir True [''a.mp4''],
      ''videos/a.mp4'' \<mapsto> File (Some (Frame [1, 3] End)),
      ''.'' \<mapsto> Dir True [''videos'']] (PyList, [''videos/a.mp4'']) 50
     = (Inr [\<lparr>fname = ''videos/a.mp4'', frame_values = [2], percentile = 50\<rparr>],
        [''videos/a.mp4'']) \<and>
   png_path posix ''videos'' \<lparr>fname = ''videos/a.mp4'', frame_values = [2], percentile = 50\<rparr>
     = ''videos/videos/a.mp4_50.png'' \<and>
   plot_frame_values posix
     [''videos'' \<mapsto> Dir True [''a.mp4''],
      ''videos/a.mp4'' \<mapsto> File (Some (Frame [1, 3] End)),
      ''.'' \<mapsto> Dir True [''videos'']] str_whole ''videos''
     [\<lparr>fname = ''videos/a.mp4'', frame_values = [2], percentile = 50\<rparr>]
     \<lparr>figures = [], tables = Map.empty\<rparr>
     = (Some OSError, \<lparr>figures = [], tables = Map.empty\<rparr>) \<and>
   read_back \<lparr>figures = [], tables = Map.empty\<rparr> ''videos/a.mp4_50.csv'' = None"
proof -
  have found: "identify_files posix
     [''videos'' \<mapsto> Dir True [''a.mp4''],
      ''videos/a.mp4'' \<mapsto> File (Some (Frame [1, 3] End)),
      ''.'' \<mapsto> Dir True [''videos'']] ''videos'' = Inr ([''videos/a.mp4''], 1)"
    by (simp add: identify_files_def glob_def posix_def posix_matches_mp4_def
        posix_joinpath_def)
  have series: "get_frame_values
     [''videos'' \<mapsto> Dir True [''a.mp4''],
      ''videos/a.mp4'' \<mapsto> File (Some (Frame [1, 3] End)),
      ''.'' \<mapsto> Dir True [''videos'']] (PyList, [''videos/a.mp4'']) 50
     = (Inr [\<lparr>fname = ''videos/a.mp4'', frame_values = [2], percentile = 50\<rparr>],
        [''videos/a.mp4''])"
    by (simp add: get_frame_values_def file_body_def get_reader_def np_percentile_def
        virtual_index_def lerp_def)
  have name: "str_int 50 = ''50''"
    by code_simp
  have figure: "png_path posix ''videos'' \<lparr>fname = ''videos/a.mp4'', frame_values = [2], percentile = 50\<rparr>
     = ''videos/videos/a.mp4_50.png''"
    by (simp add: png_path_def posix_def posix_joinpath_def name)
  have directory: "posix_dirname ''videos/videos/a.mp4_50.png'' = ''videos/videos''"
    by (simp add: posix_dirname_def)
  have "\<not> can_create posix
     [''videos'' \<mapsto> Dir True [''a.mp4''],
      ''videos/a.mp4'' \<mapsto> File (Some (Frame [1, 3] End)),
      ''.'' \<mapsto> Dir True [''videos'']] ''videos/videos/a.mp4_50.png''"
    by (simp add: can_create_def posix_def directory)
  then have raised: "plot_frame_values posix
     [''videos'' \<mapsto> Dir True [''a.mp4''],
      ''videos/a.mp4'' \<mapsto> File (Some (Frame [1, 3] End)),
      ''.'' \<mapsto> Dir True [''videos'']] str_whole ''videos''
     [\<lparr>fname = ''videos/a.mp4'', frame_values = [2], percentile = 50\<rparr>]
     \<lparr>figures = [], tables = Map.empty\<rparr>
     = (Some OSError, \<lparr>figures = [], tables = Map.empty\<rparr>)"
    by (simp add: figure)
  have "read_back \<lparr>figures = [], tables = Map.empty\<rparr> ''videos/a.mp4_50.csv'' = None"
    by (simp add: read_back_def)
  with found series figure raised show ?thesis by simp
qed

end
